theory Spec2Isabelle
  imports Complex_Main "HOL-Library.Sublist"
begin

section \<open>Python values and the operations the agent applies to them\<close>

text \<open>
  The agent (\<^verbatim>\<open>src/moltbook_agent.py\<close>) handles only values that come out of
  \<^verbatim>\<open>json.loads\<close> or that it builds itself as request bodies, so one datatype of
  JSON-shaped Python values covers them. \<open>JNull\<close> is Python's \<^verbatim>\<open>None\<close>. A dict is an
  association list read with \<open>map_of\<close>. A float is kept as a rational; the code
  only ever tests a number for truth or formats it.

  A Python \<^verbatim>\<open>str\<close> is modelled as a \<open>string\<close>, each character standing for the code
  point of its number, 0 to 255: the texts of the model are the Latin-1 texts, and
  \<open>py_isspace\<close>, \<open>py_strip\<close> and \<open>py_upper\<close> below are Python's \<^verbatim>\<open>str.isspace\<close>,
  \<^verbatim>\<open>str.strip\<close> and \<^verbatim>\<open>str.upper\<close> on them.
\<close>

datatype json =
    JNull
  | JBool bool
  | JInt int
  | JFloat rat
  | JStr string
  | JArr "json list"
  | JObj "(string \<times> json) list"

datatype py_error = TypeError | AttributeError | KeyError | IndexError | UnicodeDecodeError

type_synonym 'a raising = "py_error + 'a"

definition and_then :: "'a raising \<Rightarrow> ('a \<Rightarrow> 'b raising) \<Rightarrow> 'b raising" where
  "and_then m f = (case m of Inl e \<Rightarrow> Inl e | Inr x \<Rightarrow> f x)"

text \<open>Truth value of a Python object, as \<^verbatim>\<open>if x:\<close> and \<^verbatim>\<open>not x\<close> take it.\<close>

fun truthy :: "json \<Rightarrow> bool" where
  "truthy JNull = False"
| "truthy (JBool b) = b"
| "truthy (JInt i) = (i \<noteq> 0)"
| "truthy (JFloat r) = (r \<noteq> 0)"
| "truthy (JStr s) = (s \<noteq> [])"
| "truthy (JArr xs) = (xs \<noteq> [])"
| "truthy (JObj kvs) = (kvs \<noteq> [])"

text \<open>\<^verbatim>\<open>pat in s\<close> on two strings: \<open>pat\<close> occurs in \<open>s\<close> as a contiguous run.\<close>

fun str_contains :: "'a list \<Rightarrow> 'a list \<Rightarrow> bool" where
  "str_contains pat [] = (pat = [])"
| "str_contains pat (c # cs) = (prefix pat (c # cs) \<or> str_contains pat cs)"

text \<open>\<^verbatim>\<open>key in x\<close> for a string key: dict membership, list membership by equality,
  substring test on a string, \<^verbatim>\<open>TypeError\<close> on anything that is not a container.\<close>

fun py_in :: "string \<Rightarrow> json \<Rightarrow> bool raising" where
  "py_in k (JObj kvs) = Inr (map_of kvs k \<noteq> None)"
| "py_in k (JArr xs) = Inr (JStr k \<in> set xs)"
| "py_in k (JStr s) = Inr (str_contains k s)"
| "py_in k _ = Inl TypeError"

text \<open>\<^verbatim>\<open>x[key]\<close> for a string key.\<close>

fun py_item :: "json \<Rightarrow> string \<Rightarrow> json raising" where
  "py_item (JObj kvs) k = (case map_of kvs k of None \<Rightarrow> Inl KeyError | Some v \<Rightarrow> Inr v)"
| "py_item _ k = Inl TypeError"

text \<open>\<^verbatim>\<open>len(x)\<close>: a dict counts its keys.\<close>

fun py_len :: "json \<Rightarrow> nat raising" where
  "py_len (JObj kvs) = Inr (length (remdups (map fst kvs)))"
| "py_len (JArr xs) = Inr (length xs)"
| "py_len (JStr s) = Inr (length s)"
| "py_len _ = Inl TypeError"

text \<open>\<^verbatim>\<open>x[0]\<close>: a dict parsed from JSON has string keys only, so the key \<open>0\<close> is
  never in it.\<close>

fun py_first :: "json \<Rightarrow> json raising" where
  "py_first (JArr xs) = (case xs of [] \<Rightarrow> Inl IndexError | x # _ \<Rightarrow> Inr x)"
| "py_first (JStr s) = (case s of [] \<Rightarrow> Inl IndexError | c # _ \<Rightarrow> Inr (JStr [c]))"
| "py_first (JObj kvs) = Inl KeyError"
| "py_first _ = Inl TypeError"

text \<open>\<^verbatim>\<open>x.get(key, default)\<close>: only a dict has the method.\<close>

fun py_get :: "json \<Rightarrow> string \<Rightarrow> json \<Rightarrow> json raising" where
  "py_get (JObj kvs) k d = Inr (case map_of kvs k of None \<Rightarrow> d | Some v \<Rightarrow> v)"
| "py_get _ k d = Inl AttributeError"

text \<open>\<^verbatim>\<open>x[:n]\<close>: a prefix of a string or a list. A dict refuses a slice as a key
  (\<^verbatim>\<open>TypeError\<close> up to Python 3.11, \<^verbatim>\<open>KeyError\<close> from 3.12 on).\<close>

fun py_slice_to :: "nat \<Rightarrow> json \<Rightarrow> json raising" where
  "py_slice_to n (JStr s) = Inr (JStr (take n s))"
| "py_slice_to n (JArr xs) = Inr (JArr (take n xs))"
| "py_slice_to n _ = Inl TypeError"

subsection \<open>Strings\<close>

definition newline :: char where
  "newline = CHR 0x0A"

text \<open>\<^verbatim>\<open>c.isspace()\<close>: the white space of ASCII, the four separators U+001C to U+001F,
  the next-line control U+0085 and the no-break space U+00A0.\<close>

definition py_isspace :: "char \<Rightarrow> bool" where
  "py_isspace c = (of_char c \<in> {9, 10, 11, 12, 13, 28, 29, 30, 31, 32, 133, 160 :: nat})"

text \<open>The code points of a text.\<close>

definition code_points :: "string \<Rightarrow> nat list" where
  "code_points s = map of_char s"

text \<open>
  \<^verbatim>\<open>c.upper()\<close>, as code points, since the result can leave Latin-1 and can be two
  characters long: a small letter of ASCII or of U+00E0 to U+00FE (the division sign
  U+00F7 is no letter) moves down by 32; the micro sign U+00B5 becomes U+039C, the sharp
  s U+00DF becomes \<^verbatim>\<open>SS\<close>, and U+00FF becomes U+0178; every other character stays.
\<close>

definition upper_char :: "char \<Rightarrow> nat list" where
  "upper_char c =
     (let n = of_char c :: nat
      in if 97 \<le> n \<and> n \<le> 122 then [n - 32]
         else if n = 181 then [924]
         else if n = 223 then [83, 83]
         else if 224 \<le> n \<and> n \<le> 254 \<and> n \<noteq> 247 then [n - 32]
         else if n = 255 then [376]
         else [n])"

text \<open>\<^verbatim>\<open>s.upper()\<close>, as code points.\<close>

definition py_upper :: "string \<Rightarrow> nat list" where
  "py_upper s = concat (map upper_char s)"

definition py_lstrip :: "string \<Rightarrow> string" where
  "py_lstrip s = dropWhile py_isspace s"

definition py_rstrip :: "string \<Rightarrow> string" where
  "py_rstrip s = rev (dropWhile py_isspace (rev s))"

definition py_strip :: "string \<Rightarrow> string" where
  "py_strip s = py_rstrip (py_lstrip s)"

text \<open>\<^verbatim>\<open>s.split('\n')\<close>: never empty, one more piece than there are newlines.\<close>

fun split_lines :: "string \<Rightarrow> string list" where
  "split_lines [] = [[]]"
| "split_lines (c # cs) =
     (if c = newline then [] # split_lines cs
      else (case split_lines cs of [] \<Rightarrow> [[c]] | l # ls \<Rightarrow> (c # l) # ls))"

text \<open>\<^verbatim>\<open>'\n'.join(ls)\<close>.\<close>

fun join_lines :: "string list \<Rightarrow> string" where
  "join_lines [] = []"
| "join_lines [l] = l"
| "join_lines (l # m # ls) = l @ newline # join_lines (m # ls)"

text \<open>\<^verbatim>\<open>xs[-n:]\<close> for a positive \<open>n\<close>: the last \<open>n\<close> elements, all of them when there
  are fewer.\<close>

definition py_last_n :: "nat \<Rightarrow> 'a list \<Rightarrow> 'a list" where
  "py_last_n n xs = drop (length xs - n) xs"

section \<open>The world outside: HTTP exchanges and the console\<close>

text \<open>
  Every call of \<^verbatim>\<open>requests.get/post/patch/delete\<close> is one \<open>http_request\<close>, appended to
  the log \<open>net_log\<close> of the state when it is attempted; the length of the log is the
  number of network calls issued so far. Arguments a call does not pass are \<open>JNull\<close>.
\<close>

record http_request =
  meth :: string
  url :: string
  headers :: "(string \<times> string) list"
  json_body :: json
  params :: json
  stream :: bool
  timeout :: nat

text \<open>A line of a response body as \<^verbatim>\<open>iter_lines\<close> yields it: bytes, which
  \<^verbatim>\<open>decode('utf-8')\<close> turns into text or refuses.\<close>

datatype line = Undecodable | Decodes string

text \<open>
  What the library hands back. \<open>Raises\<close>: the call itself raised a
  \<^verbatim>\<open>RequestException\<close> (time-out, connection error). Otherwise a response with its
  status, its body as \<^verbatim>\<open>response.text\<close> and as the lines of \<^verbatim>\<open>iter_lines\<close>;
  \<open>interrupted\<close> says that the connection breaks once those lines are delivered, so
  that \<^verbatim>\<open>iter_lines\<close> raises a \<^verbatim>\<open>RequestException\<close> there.
\<close>

record http_response =
  status_code :: nat
  body_text :: string
  body_lines :: "line list"
  interrupted :: bool

datatype outcome = Raises | Returns http_response

text \<open>\<^verbatim>\<open>response.raise_for_status()\<close> raises \<^verbatim>\<open>HTTPError\<close> for a 4xx or 5xx status
  and for no other.\<close>

definition raises_for_status :: "http_response \<Rightarrow> bool" where
  "raises_for_status r = (400 \<le> status_code r \<and> status_code r < 600)"

text \<open>
  The parts of the run-time the source calls and does not define: \<^verbatim>\<open>json.loads\<close>
  (\<open>None\<close> is \<^verbatim>\<open>JSONDecodeError\<close>), the text an f-string gives a value that is not
  a string, and the remote servers, which answer a request knowing the requests made
  before it.
\<close>

record env =
  json_loads :: "string \<Rightarrow> json option"
  py_str :: "json \<Rightarrow> string"
  server :: "http_request list \<Rightarrow> http_request \<Rightarrow> outcome"

definition fmt :: "env \<Rightarrow> json \<Rightarrow> string" where
  "fmt e v = (case v of JStr s \<Rightarrow> s | _ \<Rightarrow> py_str e v)"

text \<open>The \<^verbatim>\<open>print\<close> calls of the modelled methods, one constructor each.\<close>

datatype say =
    Echo string
  | Blank_line
  | Ai_api_error
  | Key_not_set
  | Unsupported_method string
  | Moltbook_api_error
  | Error_response string
  | Post_created string
  | Comment_added
  | Browse_starting
  | Profile_failed
  | Agent_name string
  | Fetching_feed
  | No_posts
  | Found_posts nat
  | Post_header nat
  | Post_title string
  | Post_submolt string
  | Post_score string
  | Decision_upvoting
  | Decision_commenting
  | Comment_preview string
  | Decision_skipping
  | Browse_complete

record moltbook_config =
  base_url :: string
  api_key :: json

record ai_config =
  ai_base_url :: string
  model :: string
  temperature :: rat
  reasoning_effort :: string
  streaming :: bool

text \<open>A \<^verbatim>\<open>MoltbookAgent\<close> with the world it acts on.\<close>

record state =
  moltbook :: moltbook_config
  ai :: ai_config
  agent_info :: json
  conversation_history :: "json list"
  net_log :: "http_request list"
  console :: "say list"

definition print :: "say list \<Rightarrow> state \<Rightarrow> state" where
  "print out st = st\<lparr>console := console st @ out\<rparr>"

definition issue :: "http_request \<Rightarrow> state \<Rightarrow> state" where
  "issue req st = st\<lparr>net_log := net_log st @ [req]\<rparr>"

section \<open>PollinationsAI.chat\<close>

definition chat_payload :: "ai_config \<Rightarrow> json list \<Rightarrow> bool \<Rightarrow> json" where
  "chat_payload c messages strm = JObj
     [(''model'', JStr (model c)),
      (''messages'', JArr messages),
      (''temperature'', JFloat (temperature c)),
      (''reasoning_effort'', JStr (reasoning_effort c)),
      (''stream'', JBool strm)]"

definition chat_request :: "ai_config \<Rightarrow> json list \<Rightarrow> bool \<Rightarrow> http_request" where
  "chat_request c messages strm =
     \<lparr>meth = ''POST'', url = ai_base_url c,
      headers = [(''Content-Type'', ''application/json'')],
      json_body = chat_payload c messages strm, params = JNull,
      stream = strm, timeout = 60\<rparr>"

text \<open>
  Lines 70 to 73: the text a parsed frame contributes. \<open>None\<close> when the frame has no
  choices or its content is falsy; an exception where the frame has another shape than
  the code reads.
\<close>

definition frame_content :: "json \<Rightarrow> string option raising" where
  "frame_content data =
     and_then (py_in ''choices'' data) (\<lambda>has.
       if \<not> has then Inr None
       else and_then (py_item data ''choices'') (\<lambda>choices.
         and_then (py_len choices) (\<lambda>n.
           if \<not> 0 < n then Inr None
           else and_then (py_first choices) (\<lambda>choice.
             and_then (py_get choice ''delta'' (JObj [])) (\<lambda>delta.
               and_then (py_get delta ''content'' (JStr [])) (\<lambda>content.
                 if \<not> truthy content then Inr None
                 else (case content of JStr s \<Rightarrow> Inr (Some s) | _ \<Rightarrow> Inl TypeError)))))))"

text \<open>How the \<^verbatim>\<open>for line in response.iter_lines()\<close> loop ends.\<close>

datatype loop_end = Broke_off | Ran_out | Raised py_error

text \<open>
  Lines 61 to 77, with \<open>full\<close> the \<^verbatim>\<open>full_response\<close> so far and \<open>out\<close> the fragments
  echoed so far.
\<close>

fun read_stream ::
  "(string \<Rightarrow> json option) \<Rightarrow> line list \<Rightarrow> string \<Rightarrow> say list \<Rightarrow> loop_end \<times> string \<times> say list"
where
  "read_stream loads [] full out = (Ran_out, full, out)"
| "read_stream loads (Undecodable # ls) full out = (Raised UnicodeDecodeError, full, out)"
| "read_stream loads (Decodes line_text # ls) full out =
     (if line_text = [] then read_stream loads ls full out
      else if prefix ''data: '' line_text then
        (let data_str = drop 6 line_text in
         if py_strip data_str = ''[DONE]'' then (Broke_off, full, out)
         else (case loads data_str of
                 None \<Rightarrow> read_stream loads ls full out
               | Some data \<Rightarrow>
                   (case frame_content data of
                      Inl e \<Rightarrow> (Raised e, full, out)
                    | Inr None \<Rightarrow> read_stream loads ls full out
                    | Inr (Some content) \<Rightarrow>
                        read_stream loads ls (full @ content) (out @ [Echo content]))))
      else read_stream loads ls full out)"

text \<open>Line 82: \<^verbatim>\<open>data['choices'][0]['message']['content']\<close>.\<close>

definition message_content :: "json \<Rightarrow> json raising" where
  "message_content data =
     and_then (py_item data ''choices'') (\<lambda>choices.
       and_then (py_first choices) (\<lambda>choice.
         and_then (py_item choice ''message'') (\<lambda>message.
           py_item message ''content'')))"

text \<open>
  The method. Every \<^verbatim>\<open>RequestException\<close> ends in the handler of line 84, which
  returns the empty string: a failed call, an error status, a stream that breaks, and
  the \<^verbatim>\<open>JSONDecodeError\<close> of \<^verbatim>\<open>response.json()\<close>, which \<^verbatim>\<open>requests\<close> (2.27 and later)
  derives from \<^verbatim>\<open>RequestException\<close>. Any other exception leaves the method.
\<close>

definition chat :: "env \<Rightarrow> json list \<Rightarrow> bool \<Rightarrow> state \<Rightarrow> json raising \<times> state" where
  "chat e messages strm st =
     (let req = chat_request (ai st) messages strm;
          st1 = issue req st;
          failed = (Inr (JStr []), print [Ai_api_error] st1)
      in case server e (net_log st) req of
           Raises \<Rightarrow> failed
         | Returns response \<Rightarrow>
             if raises_for_status response then failed
             else if strm then
               (case read_stream (json_loads e) (body_lines response) [] [] of
                  (Broke_off, full_response, out) \<Rightarrow>
                    (Inr (JStr full_response), print (out @ [Blank_line]) st1)
                | (Ran_out, full_response, out) \<Rightarrow>
                    if interrupted response
                    then (Inr (JStr []), print (out @ [Ai_api_error]) st1)
                    else (Inr (JStr full_response), print (out @ [Blank_line]) st1)
                | (Raised err, full_response, out) \<Rightarrow> (Inl err, print out st1))
             else
               (case json_loads e (body_text response) of
                  None \<Rightarrow> failed
                | Some data \<Rightarrow>
                    (case message_content data of
                       Inl err \<Rightarrow> (Inl err, st1)
                     | Inr content \<Rightarrow> (Inr content, st1))))"

section \<open>The Social Client\<close>

text \<open>
  Lines 111 to 131 of \<^verbatim>\<open>_make_request\<close>: the request is made, and every
  \<^verbatim>\<open>RequestException\<close> (a failed call, a 4xx or 5xx status, a body that is not JSON)
  ends in \<^verbatim>\<open>None\<close>. An empty body gives the empty dict.
\<close>

definition exchange :: "env \<Rightarrow> http_request \<Rightarrow> state \<Rightarrow> json \<times> state" where
  "exchange e req st =
     (let st1 = issue req st
      in case server e (net_log st) req of
           Raises \<Rightarrow> (JNull, print [Moltbook_api_error] st1)
         | Returns response \<Rightarrow>
             if raises_for_status response
             then (JNull, print [Moltbook_api_error, Error_response (body_text response)] st1)
             else if body_text response = [] then (JObj [], st1)
             else (case json_loads e (body_text response) of
                     None \<Rightarrow> (JNull, print [Moltbook_api_error] st1)
                   | Some v \<Rightarrow> (v, st1)))"

text \<open>Lines 105 to 109: the URL and the headers every Moltbook request carries.\<close>

definition authorized :: "env \<Rightarrow> state \<Rightarrow> string \<Rightarrow> string \<Rightarrow> http_request" where
  "authorized e st method endpoint =
     \<lparr>meth = method, url = base_url (moltbook st) @ endpoint,
      headers = [(''Authorization'', ''Bearer '' @ fmt e (api_key (moltbook st))),
                 (''Content-Type'', ''application/json'')],
      json_body = JNull, params = JNull, stream = False, timeout = 30\<rparr>"

definition make_request ::
  "env \<Rightarrow> string \<Rightarrow> string \<Rightarrow> json \<Rightarrow> json \<Rightarrow> state \<Rightarrow> json \<times> state"
where
  "make_request e method endpoint data prms st =
     (if \<not> truthy (api_key (moltbook st)) then (JNull, print [Key_not_set] st)
      else
        (let req = authorized e st method endpoint
         in if method = ''GET'' then exchange e (req\<lparr>params := prms\<rparr>) st
            else if method = ''POST'' then exchange e (req\<lparr>json_body := data\<rparr>) st
            else if method = ''PATCH'' then exchange e (req\<lparr>json_body := data\<rparr>) st
            else if method = ''DELETE'' then exchange e req st
            else (JNull, print [Unsupported_method method] st)))"

definition get_profile :: "env \<Rightarrow> state \<Rightarrow> json \<times> state" where
  "get_profile e st =
     (case make_request e ''GET'' ''/agents/me'' JNull JNull st of
        (result, st1) \<Rightarrow>
          (result, if truthy result then st1\<lparr>agent_info := result\<rparr> else st1))"

definition get_feed :: "env \<Rightarrow> string \<Rightarrow> int \<Rightarrow> state \<Rightarrow> json \<times> state" where
  "get_feed e sort_order limit st =
     make_request e ''GET'' ''/posts'' JNull
       (JObj [(''sort'', JStr sort_order), (''limit'', JInt limit)]) st"

definition get_post :: "env \<Rightarrow> json \<Rightarrow> state \<Rightarrow> json \<times> state" where
  "get_post e post_id st = make_request e ''GET'' (''/posts/'' @ fmt e post_id) JNull JNull st"

definition create_post ::
  "env \<Rightarrow> string \<Rightarrow> string \<Rightarrow> json \<Rightarrow> json \<Rightarrow> state \<Rightarrow> json \<times> state"
where
  "create_post e submolt title content link st =
     (let data = [(''submolt'', JStr submolt), (''title'', JStr title)]
                 @ (if truthy content then [(''content'', content)] else [])
                 @ (if truthy link then [(''url'', link)] else [])
      in case make_request e ''POST'' ''/posts'' (JObj data) JNull st of
           (result, st1) \<Rightarrow>
             (result, if truthy result then print [Post_created title] st1 else st1))"

definition add_comment :: "env \<Rightarrow> json \<Rightarrow> string \<Rightarrow> json \<Rightarrow> state \<Rightarrow> json \<times> state" where
  "add_comment e post_id content parent_id st =
     (let data = [(''content'', JStr content)]
                 @ (if truthy parent_id then [(''parent_id'', parent_id)] else [])
      in case make_request e ''POST'' (''/posts/'' @ fmt e post_id @ ''/comments'')
                (JObj data) JNull st of
           (result, st1) \<Rightarrow>
             (result, if truthy result then print [Comment_added] st1 else st1))"

definition upvote_post :: "env \<Rightarrow> json \<Rightarrow> state \<Rightarrow> json \<times> state" where
  "upvote_post e post_id st =
     make_request e ''POST'' (''/posts/'' @ fmt e post_id @ ''/upvote'') JNull JNull st"

definition downvote_post :: "env \<Rightarrow> json \<Rightarrow> state \<Rightarrow> json \<times> state" where
  "downvote_post e post_id st =
     make_request e ''POST'' (''/posts/'' @ fmt e post_id @ ''/downvote'') JNull JNull st"

definition search :: "env \<Rightarrow> string \<Rightarrow> int \<Rightarrow> state \<Rightarrow> json \<times> state" where
  "search e query limit st =
     make_request e ''GET'' ''/search'' JNull
       (JObj [(''q'', JStr query), (''limit'', JInt limit)]) st"

definition list_submolts :: "env \<Rightarrow> state \<Rightarrow> json \<times> state" where
  "list_submolts e st = make_request e ''GET'' ''/submolts'' JNull JNull st"

definition create_submolt :: "env \<Rightarrow> string \<Rightarrow> string \<Rightarrow> state \<Rightarrow> json \<times> state" where
  "create_submolt e name description st =
     make_request e ''POST'' ''/submolts''
       (JObj [(''name'', JStr name), (''description'', JStr description)]) JNull st"

definition subscribe_submolt :: "env \<Rightarrow> string \<Rightarrow> state \<Rightarrow> json \<times> state" where
  "subscribe_submolt e submolt_name st =
     make_request e ''POST'' (''/submolts/'' @ submolt_name @ ''/subscribe'') JNull JNull st"

section \<open>The Agent Coordinator\<close>

definition message :: "string \<Rightarrow> json \<Rightarrow> json" where
  "message role content = JObj [(''role'', JStr role), (''content'', content)]"

text \<open>The messages of the request \<^verbatim>\<open>ask_ai\<close> builds, lines 231 to 240.\<close>

definition ask_messages :: "json list \<Rightarrow> string \<Rightarrow> json \<Rightarrow> json list" where
  "ask_messages history user_message system_prompt =
     (if truthy system_prompt then [message ''system'' system_prompt] else [])
     @ py_last_n 10 history
     @ [message ''user'' (JStr user_message)]"

text \<open>An exception of \<^verbatim>\<open>chat\<close> leaves \<^verbatim>\<open>ask_ai\<close> at line 243, before the history
  is touched.\<close>

definition ask_ai :: "env \<Rightarrow> string \<Rightarrow> json \<Rightarrow> state \<Rightarrow> json raising \<times> state" where
  "ask_ai e user_message system_prompt st =
     (case chat e (ask_messages (conversation_history st) user_message system_prompt)
             (streaming (ai st)) st of
        (Inl err, st1) \<Rightarrow> (Inl err, st1)
      | (Inr response, st1) \<Rightarrow>
          (Inr response,
           st1\<lparr>conversation_history := conversation_history st1
                  @ [message ''user'' (JStr user_message), message ''assistant'' response]\<rparr>))"

text \<open>The prompt of lines 287 to 303.\<close>

definition prompt_text :: "string \<Rightarrow> string \<Rightarrow> string \<Rightarrow> string \<Rightarrow> string" where
  "prompt_text post_title content_500 submolt score = join_lines
     ['''',
      ''You are an AI agent browsing Moltbook, a social network for AI agents.'',
      '''',
      ''Post Details:'',
      ''- Title: '' @ post_title,
      ''- Content: '' @ content_500,
      ''- Submolt: '' @ submolt,
      ''- Score: '' @ score,
      '''',
      ''Decide what action to take. Options:'',
      ''1. UPVOTE - If the post is interesting or valuable'',
      ''2. COMMENT - If you have something meaningful to add'',
      ''3. SKIP - If not interesting'',
      '''',
      ''Respond with ONLY one of: UPVOTE, COMMENT, SKIP'',
      ''Then on a new line, if COMMENT, provide the comment text (keep it concise, 1-2 sentences).'',
      '''']"

datatype action = Upvote | Comment string | Skip

text \<open>The Interpret step, lines 307 to 320, on the decision text.\<close>

definition interpret_decision :: "string \<Rightarrow> action" where
  "interpret_decision decision =
     (if str_contains (code_points ''UPVOTE'') (py_upper decision) then Upvote
      else if str_contains (code_points ''COMMENT'') (py_upper decision) then
        (let lines = split_lines (py_strip decision)
         in Comment (if 1 < length lines then py_strip (join_lines (drop 1 lines))
                     else ''Interesting post!''))
      else Skip)"

text \<open>The Act step: what each branch of lines 307 to 320 does.\<close>

definition act :: "env \<Rightarrow> json \<Rightarrow> action \<Rightarrow> state \<Rightarrow> state" where
  "act e post_id a st =
     (case a of
        Upvote \<Rightarrow> snd (upvote_post e post_id (print [Decision_upvoting] st))
      | Comment comment_text \<Rightarrow>
          snd (add_comment e post_id comment_text JNull
                 (print [Decision_commenting,
                         Comment_preview (take 100 comment_text @ ''...'')] st))
      | Skip \<Rightarrow> print [Decision_skipping] st)"

text \<open>\<^verbatim>\<open>decision.upper()\<close> needs a string: \<^verbatim>\<open>chat\<close> can return another value in
  non-streaming mode.\<close>

definition interpret_and_act :: "env \<Rightarrow> json \<Rightarrow> json \<Rightarrow> state \<Rightarrow> unit raising \<times> state" where
  "interpret_and_act e post_id decision st =
     (case decision of
        JStr d \<Rightarrow> (Inr (), act e post_id (interpret_decision d) st)
      | _ \<Rightarrow> (Inl AttributeError, st))"

text \<open>One turn of the loop of line 274, for the post numbered \<open>idx\<close>. The pause of
  line 323 changes nothing in the state.\<close>

definition post_fields :: "json \<Rightarrow> (json \<times> json \<times> json \<times> json \<times> json) raising" where
  "post_fields post =
     and_then (py_get post ''title'' (JStr ''Untitled'')) (\<lambda>post_title.
     and_then (py_get post ''content'' (JStr [])) (\<lambda>post_content.
     and_then (py_get post ''id'' (JStr [])) (\<lambda>post_id.
     and_then (py_get post ''submolt'' (JStr ''unknown'')) (\<lambda>submolt.
     and_then (py_get post ''score'' (JInt 0)) (\<lambda>score.
       Inr (post_title, post_content, post_id, submolt, score))))))"

definition browse_post :: "env \<Rightarrow> nat \<Rightarrow> json \<Rightarrow> state \<Rightarrow> unit raising \<times> state" where
  "browse_post e idx post st =
     (let st1 = print [Post_header idx] st
      in case post_fields post of
           Inl err \<Rightarrow> (Inl err, st1)
         | Inr (post_title, post_content, post_id, submolt, score) \<Rightarrow>
             (let st2 = print [Post_title (fmt e post_title), Post_submolt (fmt e submolt),
                               Post_score (fmt e score)] st1
              in case py_slice_to 500 post_content of
                   Inl err \<Rightarrow> (Inl err, st2)
                 | Inr content_500 \<Rightarrow>
                     (case ask_ai e (prompt_text (fmt e post_title) (fmt e content_500)
                                           (fmt e submolt) (fmt e score)) JNull st2 of
                        (Inl err, st3) \<Rightarrow> (Inl err, st3)
                      | (Inr decision, st3) \<Rightarrow> interpret_and_act e post_id decision st3)))"

fun browse_posts :: "env \<Rightarrow> nat \<Rightarrow> json list \<Rightarrow> state \<Rightarrow> unit raising \<times> state" where
  "browse_posts e idx [] st = (Inr (), st)"
| "browse_posts e idx (post # posts) st =
     (case browse_post e idx post st of
        (Inl err, st1) \<Rightarrow> (Inl err, st1)
      | (Inr u, st1) \<Rightarrow> browse_posts e (Suc idx) posts st1)"

text \<open>Line 267 lets the pass go on only for a feed that is a non-empty list.\<close>

definition autonomous_browse :: "env \<Rightarrow> state \<Rightarrow> unit raising \<times> state" where
  "autonomous_browse e st =
     (case get_profile e (print [Browse_starting] st) of
        (profile, st1) \<Rightarrow>
          if \<not> truthy profile then (Inr (), print [Profile_failed] st1)
          else
            (case py_get profile ''name'' (JStr ''Unknown'') of
               Inl err \<Rightarrow> (Inl err, st1)
             | Inr agent_name \<Rightarrow>
                 (case get_feed e ''hot'' 10
                         (print [Agent_name (fmt e agent_name), Fetching_feed] st1) of
                    (feed, st2) \<Rightarrow>
                      (case feed of
                         JArr posts \<Rightarrow>
                           if \<not> truthy feed then (Inr (), print [No_posts] st2)
                           else
                             (case browse_posts e 1 (take 5 posts)
                                     (print [Found_posts (length posts)] st2) of
                                (Inl err, st3) \<Rightarrow> (Inl err, st3)
                              | (Inr u, st3) \<Rightarrow> (Inr (), print [Browse_complete] st3))
                       | _ \<Rightarrow> (Inr (), print [No_posts] st2)))))"

section \<open>A concrete agent and concrete servers\<close>

text \<open>
  The agent that \<^verbatim>\<open>MoltbookAgent(MoltbookConfig(api_key=key), AIConfig(streaming=strm))\<close>
  creates: the defaults of the two configurations for every other field, no profile,
  an empty history, and a world in which nothing has happened yet. \<^verbatim>\<open>main\<close> creates
  it with the key of the environment and with streaming on.
\<close>

definition new_agent :: "json \<Rightarrow> bool \<Rightarrow> state" where
  "new_agent key strm =
     \<lparr>moltbook = \<lparr>base_url = ''https://www.moltbook.com/api/v1'', api_key = key\<rparr>,
      ai = \<lparr>ai_base_url = ''https://gen.pollinations.ai/v1/chat/completions'',
            model = ''gemini'', temperature = 6 / 10, reasoning_effort = ''minimal'',
            streaming = strm\<rparr>,
      agent_info = JNull, conversation_history = [], net_log = [], console = []\<rparr>"

text \<open>
  The documents the examples below exchange, each with the value \<^verbatim>\<open>json.loads\<close>
  gives it. A text that is not listed (\<^verbatim>\<open>{oops\<close> is the one used) stands for a
  payload that \<^verbatim>\<open>json.loads\<close> refuses.
\<close>

definition delta_frame :: "string \<Rightarrow> json" where
  "delta_frame s = JObj [(''choices'', JArr [JObj [(''delta'', JObj [(''content'', JStr s)])]])]"

definition documents :: "(string \<times> json) list" where
  \<open>documents =
     [(''{"choices":[{"delta":{"content":"Hel"}}]}'', delta_frame ''Hel''),
      (''{"choices":[{"delta":{"content":"lo"}}]}'', delta_frame ''lo''),
      (''{"choices":[{"delta":{"content":" world"}}]}'', delta_frame '' world''),
      (''{"choices":[{"delta":{"content":"UPVOTE"}}]}'', delta_frame ''UPVOTE''),
      (''null'', JNull),
      (''{}'', JObj []),
      (''[]'', JArr []),
      (''{"name":"molty"}'', JObj [(''name'', JStr ''molty'')])]\<close>

text \<open>The run-time of the examples. They format strings only; of the other values
  \<^verbatim>\<open>None\<close> and the booleans have their text here.\<close>

definition sample_env :: "(http_request list \<Rightarrow> http_request \<Rightarrow> outcome) \<Rightarrow> env" where
  "sample_env srv =
     \<lparr>json_loads = map_of documents,
      py_str = (\<lambda>v. case v of JNull \<Rightarrow> ''None'' | JBool b \<Rightarrow> (if b then ''True'' else ''False'')
                         | _ \<Rightarrow> []),
      server = srv\<rparr>"

text \<open>A server that answers every request with the same response.\<close>

definition always :: "http_response \<Rightarrow> http_request list \<Rightarrow> http_request \<Rightarrow> outcome" where
  "always r earlier req = Returns r"

definition unreachable :: "http_request list \<Rightarrow> http_request \<Rightarrow> outcome" where
  "unreachable earlier req = Raises"

definition streamed :: "nat \<Rightarrow> string list \<Rightarrow> http_response" where
  "streamed code ls =
     \<lparr>status_code = code, body_text = [], body_lines = map Decodes ls, interrupted = False\<rparr>"

definition document :: "nat \<Rightarrow> string \<Rightarrow> http_response" where
  "document code txt =
     \<lparr>status_code = code, body_text = txt, body_lines = [Decodes txt], interrupted = False\<rparr>"

text \<open>A Moltbook whose only agent is \<^verbatim>\<open>molty\<close> and whose feed is empty.\<close>

definition empty_moltbook :: "http_request list \<Rightarrow> http_request \<Rightarrow> outcome" where
  \<open>empty_moltbook earlier req =
     (if url req = ''https://www.moltbook.com/api/v1/agents/me''
      then Returns (document 200 ''{"name":"molty"}'')
      else if url req = ''https://www.moltbook.com/api/v1/posts''
      then Returns (document 200 ''[]'')
      else Returns (document 404 []))\<close>

section \<open>The aggregation the specification asks for\<close>

text \<open>
  The specification's side of the streaming claim, in its own words: the result is the
  concatenation, in arrival order, of the content deltas of the well-formed
  \<^verbatim>\<open>data: \<close> frames. \<open>frame_text\<close> is what one line contributes: the content of a
  well-formed frame, nothing for any other line. \<open>is_sentinel\<close> recognises the end
  marker, and \<open>readable\<close> the lines that come before it and that the loop of line 61
  gets past: text that either is no \<^verbatim>\<open>data: \<close> frame, or whose payload is not JSON, or
  whose payload has a shape on which lines 70 to 74 raise nothing.
\<close>

definition frame_text :: "(string \<Rightarrow> json option) \<Rightarrow> line \<Rightarrow> string" where
  "frame_text loads l =
     (case l of
        Undecodable \<Rightarrow> []
      | Decodes t \<Rightarrow>
          if prefix ''data: '' t then
            (case loads (drop 6 t) of
               None \<Rightarrow> []
             | Some data \<Rightarrow> (case frame_content data of Inr (Some s) \<Rightarrow> s | _ \<Rightarrow> []))
          else [])"

definition is_sentinel :: "line \<Rightarrow> bool" where
  "is_sentinel l =
     (case l of
        Undecodable \<Rightarrow> False
      | Decodes t \<Rightarrow> prefix ''data: '' t \<and> py_strip (drop 6 t) = ''[DONE]'')"

definition readable :: "(string \<Rightarrow> json option) \<Rightarrow> line \<Rightarrow> bool" where
  "readable loads l =
     (case l of
        Undecodable \<Rightarrow> False
      | Decodes t \<Rightarrow>
          \<not> is_sentinel l \<and>
          (if prefix ''data: '' t then
             (case loads (drop 6 t) of
                None \<Rightarrow> True
              | Some data \<Rightarrow> (case frame_content data of Inl err \<Rightarrow> False | Inr c \<Rightarrow> True))
           else True))"

section \<open>What the methods leave in the state\<close>

lemma net_log_print [simp]: "net_log (print out st) = net_log st"
  by (simp add: print_def)

lemma history_print [simp]: "conversation_history (print out st) = conversation_history st"
  by (simp add: print_def)

lemma moltbook_print [simp]: "moltbook (print out st) = moltbook st"
  by (simp add: print_def)

lemma ai_print [simp]: "ai (print out st) = ai st"
  by (simp add: print_def)

lemma net_log_issue [simp]: "net_log (issue req st) = net_log st @ [req]"
  by (simp add: issue_def)

lemma history_issue [simp]: "conversation_history (issue req st) = conversation_history st"
  by (simp add: issue_def)

lemma moltbook_issue [simp]: "moltbook (issue req st) = moltbook st"
  by (simp add: issue_def)

lemma authorized_print [simp]: "authorized e (print out st) = authorized e st"
  by (simp add: authorized_def fun_eq_iff)

lemma chat_net_log:
  "net_log (snd (chat e messages strm st)) = net_log st @ [chat_request (ai st) messages strm]"
  by (simp add: chat_def Let_def
      split: outcome.splits loop_end.splits prod.splits option.splits sum.splits)

lemma chat_history:
  "conversation_history (snd (chat e messages strm st)) = conversation_history st"
  by (simp add: chat_def Let_def
      split: outcome.splits loop_end.splits prod.splits option.splits sum.splits)

lemma ask_ai_net_log:
  "net_log (snd (ask_ai e user_message system_prompt st)) =
     net_log st @ [chat_request (ai st)
        (ask_messages (conversation_history st) user_message system_prompt)
        (streaming (ai st))]"
  using chat_net_log [of e "ask_messages (conversation_history st) user_message system_prompt"
      "streaming (ai st)" st]
  by (cases "chat e (ask_messages (conversation_history st) user_message system_prompt)
        (streaming (ai st)) st")
     (auto simp add: ask_ai_def split: sum.splits)

lemma ask_ai_history_grows:
  "prefix (conversation_history st)
     (conversation_history (snd (ask_ai e user_message system_prompt st)))"
  using chat_history [of e "ask_messages (conversation_history st) user_message system_prompt"
      "streaming (ai st)" st]
  by (cases "chat e (ask_messages (conversation_history st) user_message system_prompt)
        (streaming (ai st)) st")
     (auto simp add: ask_ai_def split: sum.splits)

lemma exchange_net_log: "net_log (snd (exchange e req st)) = net_log st @ [req]"
  by (simp add: exchange_def Let_def split: outcome.splits option.splits)

lemma exchange_history:
  "conversation_history (snd (exchange e req st)) = conversation_history st"
  by (simp add: exchange_def Let_def split: outcome.splits option.splits)

lemma exchange_moltbook: "moltbook (snd (exchange e req st)) = moltbook st"
  by (simp add: exchange_def Let_def print_def issue_def split: outcome.splits option.splits)

lemma exchange_agent_info: "agent_info (snd (exchange e req st)) = agent_info st"
  by (simp add: exchange_def Let_def print_def issue_def split: outcome.splits option.splits)

lemma make_request_agent_info:
  "agent_info (snd (make_request e method endpoint data prms st)) = agent_info st"
  by (simp add: make_request_def Let_def exchange_agent_info print_def)

lemma make_request_no_key:
  "\<not> truthy (api_key (moltbook st)) \<Longrightarrow>
     make_request e method endpoint data prms st = (JNull, print [Key_not_set] st)"
  by (simp add: make_request_def)

lemma make_request_GET:
  "truthy (api_key (moltbook st)) \<Longrightarrow>
     make_request e ''GET'' endpoint data prms st =
       exchange e ((authorized e st ''GET'' endpoint)\<lparr>params := prms\<rparr>) st"
  by (simp add: make_request_def)

lemma make_request_POST:
  "truthy (api_key (moltbook st)) \<Longrightarrow>
     make_request e ''POST'' endpoint data prms st =
       exchange e ((authorized e st ''POST'' endpoint)\<lparr>json_body := data\<rparr>) st"
  by (simp add: make_request_def)

lemma make_request_history:
  "conversation_history (snd (make_request e method endpoint data prms st)) =
     conversation_history st"
  by (simp add: make_request_def Let_def exchange_history)

lemma make_request_moltbook:
  "moltbook (snd (make_request e method endpoint data prms st)) = moltbook st"
  by (simp add: make_request_def Let_def exchange_moltbook)

text \<open>A caller that tests the result for truth does nothing more than \<^verbatim>\<open>_make_request\<close>
  did when the result is falsy.\<close>

lemma get_profile_falsy:
  "\<not> truthy (fst (make_request e ''GET'' ''/agents/me'' JNull JNull st)) \<Longrightarrow>
     get_profile e st = make_request e ''GET'' ''/agents/me'' JNull JNull st"
  by (cases "make_request e ''GET'' ''/agents/me'' JNull JNull st")
     (simp add: get_profile_def)

lemma add_comment_falsy:
  "\<not> truthy (fst (make_request e ''POST'' (''/posts/'' @ fmt e post_id @ ''/comments'')
       (JObj ([(''content'', JStr content)]
              @ (if truthy parent_id then [(''parent_id'', parent_id)] else []))) JNull st)) \<Longrightarrow>
     add_comment e post_id content parent_id st =
       make_request e ''POST'' (''/posts/'' @ fmt e post_id @ ''/comments'')
         (JObj ([(''content'', JStr content)]
                @ (if truthy parent_id then [(''parent_id'', parent_id)] else []))) JNull st"
  by (cases "make_request e ''POST'' (''/posts/'' @ fmt e post_id @ ''/comments'')
         (JObj ([(''content'', JStr content)]
                @ (if truthy parent_id then [(''parent_id'', parent_id)] else []))) JNull st")
     (simp add: add_comment_def Let_def)

lemma create_post_falsy:
  "\<not> truthy (fst (make_request e ''POST'' ''/posts''
       (JObj ([(''submolt'', JStr submolt), (''title'', JStr title)]
              @ (if truthy content then [(''content'', content)] else [])
              @ (if truthy link then [(''url'', link)] else []))) JNull st)) \<Longrightarrow>
     create_post e submolt title content link st =
       make_request e ''POST'' ''/posts''
         (JObj ([(''submolt'', JStr submolt), (''title'', JStr title)]
                @ (if truthy content then [(''content'', content)] else [])
                @ (if truthy link then [(''url'', link)] else []))) JNull st"
  by (cases "make_request e ''POST'' ''/posts''
         (JObj ([(''submolt'', JStr submolt), (''title'', JStr title)]
                @ (if truthy content then [(''content'', content)] else [])
                @ (if truthy link then [(''url'', link)] else []))) JNull st")
     (simp add: create_post_def Let_def)

lemma get_profile_net_log:
  "net_log (snd (get_profile e st)) =
     net_log (snd (make_request e ''GET'' ''/agents/me'' JNull JNull st))"
  by (cases "make_request e ''GET'' ''/agents/me'' JNull JNull st")
     (simp add: get_profile_def)

lemma add_comment_net_log:
  "truthy (api_key (moltbook st)) \<Longrightarrow>
     net_log (snd (add_comment e post_id content JNull st)) =
       net_log st @ [(authorized e st ''POST'' (''/posts/'' @ fmt e post_id @ ''/comments''))
                       \<lparr>json_body := JObj [(''content'', JStr content)]\<rparr>]"
  using exchange_net_log [of e "(authorized e st ''POST'' (''/posts/'' @ fmt e post_id @ ''/comments''))
                       \<lparr>json_body := JObj [(''content'', JStr content)]\<rparr>" st]
  by (cases "exchange e ((authorized e st ''POST'' (''/posts/'' @ fmt e post_id @ ''/comments''))
                       \<lparr>json_body := JObj [(''content'', JStr content)]\<rparr>) st")
     (simp add: add_comment_def make_request_POST)

lemma upvote_post_net_log:
  "truthy (api_key (moltbook st)) \<Longrightarrow>
     net_log (snd (upvote_post e post_id st)) =
       net_log st @ [(authorized e st ''POST'' (''/posts/'' @ fmt e post_id @ ''/upvote''))
                       \<lparr>json_body := JNull\<rparr>]"
  by (simp add: upvote_post_def make_request_POST exchange_net_log)

section \<open>Strings: stripping, splitting, joining\<close>

lemma str_contains_prefix: "prefix pat s \<Longrightarrow> str_contains pat s"
  by (cases s) simp_all

lemma rstrip_keeps_front:
  assumes "c \<in> set s" "\<not> py_isspace c"
  shows "py_rstrip (t @ s) = t @ py_rstrip s"
proof -
  have "c \<in> set (rev s)" using assms by simp
  then have "dropWhile py_isspace (rev s @ rev t) = dropWhile py_isspace (rev s) @ rev t"
    using assms(2) by (rule dropWhile_append1)
  then show ?thesis by (simp add: py_rstrip_def)
qed

lemma rstrip_all_space:
  assumes "\<forall>c \<in> set s. py_isspace c"
  shows "py_rstrip (t @ s) = py_rstrip t"
proof -
  have "dropWhile py_isspace (rev s @ rev t) = dropWhile py_isspace (rev t)"
    using assms by (intro dropWhile_append2) simp
  then show ?thesis by (simp add: py_rstrip_def)
qed

lemma rstrip_idem: "py_rstrip (py_rstrip s) = py_rstrip s"
  by (simp add: py_rstrip_def)

lemma rstrip_Cons_nonspace:
  assumes "\<not> py_isspace x"
  shows "\<exists>r. py_rstrip (x # s) = x # r"
proof (cases "\<forall>c \<in> set s. py_isspace c")
  case True
  then have "py_rstrip ([x] @ s) = py_rstrip [x]" by (rule rstrip_all_space)
  then show ?thesis using assms by (simp add: py_rstrip_def)
next
  case False
  then obtain c where "c \<in> set s" "\<not> py_isspace c" by blast
  then have "py_rstrip ([x] @ s) = [x] @ py_rstrip s" by (rule rstrip_keeps_front)
  then show ?thesis by simp
qed

lemma dropWhile_Cons_head:
  assumes "dropWhile P s = x # b"
  shows "\<not> P x"
proof -
  have "dropWhile P s \<noteq> []" unfolding assms by simp
  from hd_dropWhile [OF this] show ?thesis unfolding assms by simp
qed

lemma lstrip_rstrip_commute: "py_lstrip (py_rstrip s) = py_rstrip (py_lstrip s)"
proof (cases "dropWhile py_isspace s")
  case Nil
  then have all: "\<forall>c \<in> set s. py_isspace c"
    by (simp add: dropWhile_eq_Nil_conv)
  then have "py_rstrip ([] @ s) = py_rstrip []" by (rule rstrip_all_space)
  then have r: "py_rstrip s = []" by (simp add: py_rstrip_def)
  have l: "py_lstrip s = []" using Nil by (simp add: py_lstrip_def)
  show ?thesis unfolding r l by (simp add: py_lstrip_def py_rstrip_def)
next
  case (Cons x b)
  have x: "\<not> py_isspace x"
    using Cons by (rule dropWhile_Cons_head)
  have l: "py_lstrip s = x # b"
    unfolding py_lstrip_def by (rule Cons)
  have "x \<in> set (dropWhile py_isspace s)"
    unfolding Cons by simp
  then have "py_rstrip (takeWhile py_isspace s @ dropWhile py_isspace s) =
      takeWhile py_isspace s @ py_rstrip (dropWhile py_isspace s)"
    using x by (rule rstrip_keeps_front)
  then have "py_rstrip s = takeWhile py_isspace s @ py_rstrip (dropWhile py_isspace s)"
    by simp
  then have rs: "py_rstrip s = takeWhile py_isspace s @ py_rstrip (x # b)"
    unfolding Cons .
  obtain r where r: "py_rstrip (x # b) = x # r"
    using rstrip_Cons_nonspace [OF x] by blast
  have d: "dropWhile py_isspace (takeWhile py_isspace s @ x # r) = dropWhile py_isspace (x # r)"
    by (rule dropWhile_append2) (blast dest: set_takeWhileD)
  have "dropWhile py_isspace (x # r) = x # r"
    using x by (simp del: dropWhile_eq_Cons_conv)
  then have "py_lstrip (py_rstrip s) = x # r"
    unfolding py_lstrip_def rs r d .
  then show ?thesis
    unfolding l r .
qed

lemma strip_rstrip: "py_strip (py_rstrip s) = py_strip s"
  by (simp add: py_strip_def lstrip_rstrip_commute rstrip_idem)

lemma strip_empty_iff: "py_strip s = [] \<longleftrightarrow> (\<forall>c \<in> set s. py_isspace c)"
proof
  assume empty: "py_strip s = []"
  show "\<forall>c \<in> set s. py_isspace c"
  proof (cases "dropWhile py_isspace s")
    case Nil
    then show ?thesis by (simp add: dropWhile_eq_Nil_conv)
  next
    case (Cons x b)
    have "\<not> py_isspace x"
      using Cons by (rule dropWhile_Cons_head)
    then obtain r where r: "py_rstrip (x # b) = x # r"
      using rstrip_Cons_nonspace by blast
    have "py_lstrip s = x # b"
      unfolding py_lstrip_def by (rule Cons)
    then have "py_strip s = x # r"
      by (simp add: py_strip_def r)
    with empty show ?thesis by simp
  qed
next
  assume all: "\<forall>c \<in> set s. py_isspace c"
  then have d: "dropWhile py_isspace s = []" by (simp add: dropWhile_eq_Nil_conv)
  show "py_strip s = []" unfolding py_strip_def py_lstrip_def py_rstrip_def d by simp
qed

lemma set_strip: "set (py_strip s) \<subseteq> set s"
proof
  fix c assume "c \<in> set (py_strip s)"
  then have "c \<in> set (dropWhile py_isspace (rev (dropWhile py_isspace s)))"
    by (simp add: py_strip_def py_rstrip_def py_lstrip_def)
  then have "c \<in> set (rev (dropWhile py_isspace s))" by (rule set_dropWhileD)
  then have "c \<in> set (dropWhile py_isspace s)" by simp
  then show "c \<in> set s" by (rule set_dropWhileD)
qed

lemma split_lines_not_Nil: "split_lines s \<noteq> []"
  by (induction s) (auto split: list.splits)

lemma split_lines_single: "newline \<notin> set s \<Longrightarrow> split_lines s = [s]"
  by (induction s) auto

lemma split_lines_first:
  "newline \<notin> set l \<Longrightarrow> split_lines (l @ newline # r) = l # split_lines r"
  by (induction l) auto

lemma join_lines_Cons_char: "join_lines ((c # l) # ls) = c # join_lines (l # ls)"
  by (cases ls) simp_all

lemma join_split_lines: "join_lines (split_lines s) = s"
proof (induction s)
  case Nil
  show ?case by simp
next
  case (Cons c s)
  obtain l ls where ls: "split_lines s = l # ls"
    using split_lines_not_Nil [of s] by (cases "split_lines s") auto
  with Cons show ?case
    by (simp add: join_lines_Cons_char)
qed

lemma upper_COMMENT: "py_upper ''COMMENT'' = code_points ''COMMENT''"
  by code_simp

lemma upper_append: "py_upper (s @ t) = py_upper s @ py_upper t"
  by (simp add: py_upper_def)

lemma C_not_space: "\<not> py_isspace CHR ''C''"
  by code_simp

lemma newline_is_space: "py_isspace newline"
  by code_simp

lemma no_newline_in_COMMENT: "newline \<notin> set ''COMMENT''"
  by code_simp

text \<open>What \<^verbatim>\<open>strip\<close> leaves of a reply that opens with the line \<^verbatim>\<open>COMMENT\<close>.\<close>

lemma strip_COMMENT_line:
  assumes "py_strip rest \<noteq> []"
  shows "py_strip (''COMMENT'' @ newline # rest) = ''COMMENT'' @ newline # py_rstrip rest"
proof -
  obtain c where c: "c \<in> set rest" "\<not> py_isspace c"
    using assms strip_empty_iff [of rest] by blast
  have "py_lstrip (''COMMENT'' @ newline # rest) = ''COMMENT'' @ newline # rest"
    using C_not_space by (simp add: py_lstrip_def)
  moreover have "py_rstrip ((''COMMENT'' @ [newline]) @ rest) = (''COMMENT'' @ [newline]) @ py_rstrip rest"
    using c by (rule rstrip_keeps_front)
  ultimately show ?thesis
    by (simp add: py_strip_def)
qed


text \<open>The fresh agent.\<close>

lemma new_agent_simps:
  "net_log (new_agent key strm) = []"
  "console (new_agent key strm) = []"
  "conversation_history (new_agent key strm) = []"
  "api_key (moltbook (new_agent key strm)) = key"
  "base_url (moltbook (new_agent key strm)) = ''https://www.moltbook.com/api/v1''"
  "streaming (ai (new_agent key strm)) = strm"
  by (simp_all add: new_agent_def)


text \<open>Payloads that are JSON and on which lines 70 to 74 raise: a value that is no
  container, a delta that is \<^verbatim>\<open>null\<close>, a content that is a list of parts.\<close>

lemma frame_content_raises:
  "frame_content JNull = Inl TypeError"
  "frame_content (JInt 42) = Inl TypeError"
  "frame_content (JObj [(''choices'', JArr [JObj [(''delta'', JNull)]])]) = Inl AttributeError"
  "frame_content (JObj [(''choices'', JArr [JObj [(''delta'',
      JObj [(''content'', JArr [JStr ''Hi''])])]])]) = Inl TypeError"
  by (simp_all add: frame_content_def and_then_def)

lemma frame_content_delta_frame:
  "frame_content (delta_frame s) = Inr (if s = [] then None else Some s)"
  by (simp add: frame_content_def and_then_def delta_frame_def)

section \<open>The conversation window (C2) and the history (C9)\<close>

text \<open>
  C2. Whatever the conversation history holds, the request \<^verbatim>\<open>ask_ai\<close> sends carries,
  between the optional system message and the new user message, a window of at most 10
  history entries; the window is the end of the history, of length 10 as soon as the
  history has 10 entries, so the oldest entries are the ones left out. The history
  itself keeps every entry it had.
\<close>

theorem ask_ai_window:
  "\<exists>window.
     net_log (snd (ask_ai e user_message system_prompt st)) =
       net_log st @ [chat_request (ai st)
         ((if truthy system_prompt then [message ''system'' system_prompt] else [])
          @ window @ [message ''user'' (JStr user_message)]) (streaming (ai st))]
     \<and> length window \<le> 10
     \<and> length window = min 10 (length (conversation_history st))
     \<and> suffix window (conversation_history st)
     \<and> prefix (conversation_history st)
          (conversation_history (snd (ask_ai e user_message system_prompt st)))"
proof (intro exI conjI)
  let ?w = "py_last_n 10 (conversation_history st)"
  show "net_log (snd (ask_ai e user_message system_prompt st)) =
       net_log st @ [chat_request (ai st)
         ((if truthy system_prompt then [message ''system'' system_prompt] else [])
          @ ?w @ [message ''user'' (JStr user_message)]) (streaming (ai st))]"
    by (simp add: ask_ai_net_log ask_messages_def)
  show "length ?w \<le> 10" by (simp add: py_last_n_def)
  show "length ?w = min 10 (length (conversation_history st))" by (simp add: py_last_n_def)
  show "suffix ?w (conversation_history st)" by (simp add: py_last_n_def suffix_drop)
  show "prefix (conversation_history st)
          (conversation_history (snd (ask_ai e user_message system_prompt st)))"
    by (rule ask_ai_history_grows)
qed

text \<open>
  C9, as the claim states it, fails: in non-streaming mode a reply document without
  \<^verbatim>\<open>choices\<close> makes \<^verbatim>\<open>chat\<close> raise \<^verbatim>\<open>KeyError\<close>, which leaves \<^verbatim>\<open>ask_ai\<close> before
  line 246, and the call appends nothing.
\<close>

theorem ask_ai_appends_nothing_when_chat_raises:
  \<open>fst (ask_ai (sample_env (always (document 200 ''{}''))) ''hello'' JNull
          (new_agent (JStr ''key'') False)) = Inl KeyError
   \<and> conversation_history
        (snd (ask_ai (sample_env (always (document 200 ''{}''))) ''hello'' JNull
               (new_agent (JStr ''key'') False))) = []\<close>
  by code_simp

text \<open>
  C9, amended. Every call of \<^verbatim>\<open>ask_ai\<close> in which \<^verbatim>\<open>chat\<close> returns a reply, be it the
  empty string, returns that reply and appends exactly two entries to the history:
  the user message, then the reply as the assistant's message. The entries that were
  there stay as they were.
\<close>

theorem ask_ai_appends_two:
  assumes "fst (chat e (ask_messages (conversation_history st) user_message system_prompt)
                  (streaming (ai st)) st) = Inr reply"
  shows "fst (ask_ai e user_message system_prompt st) = Inr reply
         \<and> conversation_history (snd (ask_ai e user_message system_prompt st)) =
             conversation_history st
             @ [message ''user'' (JStr user_message), message ''assistant'' reply]"
  using assms
    chat_history [of e "ask_messages (conversation_history st) user_message system_prompt"
      "streaming (ai st)" st]
  by (cases "chat e (ask_messages (conversation_history st) user_message system_prompt)
        (streaming (ai st)) st")
     (auto simp add: ask_ai_def)

theorem ask_ai_appends_two_witness:
  "fst (chat (sample_env unreachable)
          (ask_messages (conversation_history (new_agent (JStr ''key'') True)) ''hello'' JNull)
          (streaming (ai (new_agent (JStr ''key'') True)))
          (new_agent (JStr ''key'') True)) = Inr (JStr [])
   \<and> fst (ask_ai (sample_env unreachable) ''hello'' JNull (new_agent (JStr ''key'') True)) =
       Inr (JStr [])
   \<and> conversation_history
       (snd (ask_ai (sample_env unreachable) ''hello'' JNull (new_agent (JStr ''key'') True))) =
       [message ''user'' (JStr ''hello''), message ''assistant'' (JStr [])]"
proof -
  have reply: "fst (chat (sample_env unreachable)
          (ask_messages (conversation_history (new_agent (JStr ''key'') True)) ''hello'' JNull)
          (streaming (ai (new_agent (JStr ''key'') True)))
          (new_agent (JStr ''key'') True)) = Inr (JStr [])"
    by code_simp
  have empty: "conversation_history (new_agent (JStr ''key'') True) = []"
    by (simp add: new_agent_def)
  from ask_ai_appends_two [OF reply] empty reply show ?thesis
    by simp
qed

section \<open>The Social Client without a credential (C4) and with an empty reply (C10)\<close>

text \<open>
  C4. When the API key is absent (\<^verbatim>\<open>None\<close> or empty, whatever \<^verbatim>\<open>not api_key\<close>
  accepts), each of the eleven Social Client operations returns \<^verbatim>\<open>None\<close>, and all it
  has done is print the complaint of line 102: the log of network calls is the one it
  found, so no HTTP request was attempted.
\<close>

theorem no_key_no_request:
  assumes "\<not> truthy (api_key (moltbook st))"
  shows "get_profile e st = (JNull, print [Key_not_set] st)
       \<and> get_feed e sort_order limit st = (JNull, print [Key_not_set] st)
       \<and> get_post e post_id st = (JNull, print [Key_not_set] st)
       \<and> create_post e submolt title content link st = (JNull, print [Key_not_set] st)
       \<and> add_comment e post_id comment parent_id st = (JNull, print [Key_not_set] st)
       \<and> upvote_post e post_id st = (JNull, print [Key_not_set] st)
       \<and> downvote_post e post_id st = (JNull, print [Key_not_set] st)
       \<and> search e query limit st = (JNull, print [Key_not_set] st)
       \<and> list_submolts e st = (JNull, print [Key_not_set] st)
       \<and> create_submolt e name description st = (JNull, print [Key_not_set] st)
       \<and> subscribe_submolt e name st = (JNull, print [Key_not_set] st)
       \<and> net_log (print [Key_not_set] st) = net_log st"
  using assms
  by (simp add: make_request_no_key get_profile_def get_feed_def get_post_def create_post_def
      add_comment_def upvote_post_def downvote_post_def search_def list_submolts_def
      create_submolt_def subscribe_submolt_def Let_def)

theorem no_key_no_request_witness:
  \<open>\<not> truthy (api_key (moltbook (new_agent JNull True)))
   \<and> upvote_post (sample_env (always (document 200 ''{}''))) (JStr ''p1'') (new_agent JNull True) =
       (JNull, print [Key_not_set] (new_agent JNull True))
   \<and> add_comment (sample_env (always (document 200 ''{}''))) (JStr ''p1'') ''Nice idea!'' JNull
         (new_agent JNull True) =
       (JNull, print [Key_not_set] (new_agent JNull True))
   \<and> get_feed (sample_env (always (document 200 ''{}''))) ''hot'' 10 (new_agent JNull True) =
       (JNull, print [Key_not_set] (new_agent JNull True))
   \<and> net_log (print [Key_not_set] (new_agent JNull True)) = []\<close>
proof -
  have absent: "\<not> truthy (api_key (moltbook (new_agent JNull True)))"
    by (simp add: new_agent_def)
  have "net_log (new_agent JNull True) = []"
    by (simp add: new_agent_def)
  with absent
    no_key_no_request [OF absent, of "sample_env (always (document 200 ''{}''))" "''hot''" 10
      "JStr ''p1''" _ _ _ _ "''Nice idea!''" JNull]
  show ?thesis
    by simp
qed

text \<open>
  C10. With a key and one of the four supported methods, a response whose status is
  2xx and whose body is empty makes \<^verbatim>\<open>_make_request\<close> return the empty dict, where a
  failed call (the request raises, or the status is 4xx or 5xx) makes it return
  \<^verbatim>\<open>None\<close>. The empty dict is falsy as \<^verbatim>\<open>None\<close> is. So after the one and after the other,
  each caller that tests the result for truth takes the same branch of its test:
  \<^verbatim>\<open>get_profile\<close>, \<^verbatim>\<open>create_post\<close> and \<^verbatim>\<open>add_comment\<close> return what \<^verbatim>\<open>_make_request\<close>
  returned and leave the state as \<^verbatim>\<open>_make_request\<close> left it (no profile is stored, no
  success is reported), and \<^verbatim>\<open>autonomous_browse\<close> gives the pass up at line 259.
  Below, \<open>ok\<close> is a world that answers with the empty 2xx response and \<open>bad\<close> one in
  which the call fails.
\<close>

theorem empty_body_is_falsy_success:
  assumes key: "truthy (api_key (moltbook st))"
    and supported: "method = ''GET'' \<or> method = ''POST'' \<or> method = ''PATCH'' \<or> method = ''DELETE''"
    and answer: "\<And>req. server ok (net_log st) req = Returns response"
    and status: "200 \<le> status_code response" "status_code response < 300"
    and body: "body_text response = []"
    and failure: "\<And>req. server bad (net_log st) req = Raises
        \<or> (\<exists>r. server bad (net_log st) req = Returns r
               \<and> 400 \<le> status_code r \<and> status_code r < 600)"
  shows "fst (make_request ok method endpoint data prms st) = JObj []
       \<and> fst (make_request bad method endpoint data prms st) = JNull
       \<and> JObj [] \<noteq> JNull \<and> \<not> truthy (JObj []) \<and> \<not> truthy JNull
       \<and> (\<forall>e \<in> {ok, bad}.
            get_profile e st = make_request e ''GET'' ''/agents/me'' JNull JNull st
          \<and> agent_info (snd (get_profile e st)) = agent_info st
          \<and> create_post e submolt title content link st =
              make_request e ''POST'' ''/posts''
                (JObj ([(''submolt'', JStr submolt), (''title'', JStr title)]
                       @ (if truthy content then [(''content'', content)] else [])
                       @ (if truthy link then [(''url'', link)] else []))) JNull st
          \<and> add_comment e post_id comment parent_id st =
              make_request e ''POST'' (''/posts/'' @ fmt e post_id @ ''/comments'')
                (JObj ([(''content'', JStr comment)]
                       @ (if truthy parent_id then [(''parent_id'', parent_id)] else [])))
                JNull st
          \<and> autonomous_browse e st =
              (Inr (), print [Profile_failed] (snd (get_profile e (print [Browse_starting] st)))))"
    (is "?A \<and> ?B \<and> ?C1 \<and> ?C2 \<and> ?C3 \<and> (\<forall>e \<in> {ok, bad}. ?P e)")
proof -
  have fine: "\<not> raises_for_status response"
    using status by (simp add: raises_for_status_def)
  have ex_ok: "fst (exchange ok req st0) = JObj []" if "net_log st0 = net_log st" for req st0
    using that answer [of req] fine body by (simp add: exchange_def Let_def)
  have ex_bad: "fst (exchange bad req st0) = JNull" if "net_log st0 = net_log st" for req st0
    using that failure [of req] by (auto simp add: exchange_def Let_def raises_for_status_def)
  have mr_ok: "fst (make_request ok m ep d p st0) = JObj []"
    if "net_log st0 = net_log st" "moltbook st0 = moltbook st"
      "m = ''GET'' \<or> m = ''POST'' \<or> m = ''PATCH'' \<or> m = ''DELETE''" for m ep d p st0
    using that key ex_ok [of st0] by (auto simp add: make_request_def Let_def)
  have mr_bad: "fst (make_request bad m ep d p st0) = JNull"
    if "net_log st0 = net_log st" "moltbook st0 = moltbook st"
      "m = ''GET'' \<or> m = ''POST'' \<or> m = ''PATCH'' \<or> m = ''DELETE''" for m ep d p st0
    using that key ex_bad [of st0] by (auto simp add: make_request_def Let_def)
  have falsy: "\<not> truthy (fst (make_request e m ep d p st0))"
    if "e = ok \<or> e = bad" "net_log st0 = net_log st" "moltbook st0 = moltbook st"
      "m = ''GET'' \<or> m = ''POST''" for e m ep d p st0
    using that mr_ok [of st0 m ep d p] mr_bad [of st0 m ep d p] by auto
  have callers: "?P e"
    if e: "e = ok \<or> e = bad" for e
  proof (intro conjI)
    show profile: "get_profile e st = make_request e ''GET'' ''/agents/me'' JNull JNull st"
      using e by (intro get_profile_falsy falsy) simp_all
    show "agent_info (snd (get_profile e st)) = agent_info st"
      unfolding profile by (rule make_request_agent_info)
    show "create_post e submolt title content link st =
              make_request e ''POST'' ''/posts''
                (JObj ([(''submolt'', JStr submolt), (''title'', JStr title)]
                       @ (if truthy content then [(''content'', content)] else [])
                       @ (if truthy link then [(''url'', link)] else []))) JNull st"
      using e by (intro create_post_falsy falsy) simp_all
    show "add_comment e post_id comment parent_id st =
              make_request e ''POST'' (''/posts/'' @ fmt e post_id @ ''/comments'')
                (JObj ([(''content'', JStr comment)]
                       @ (if truthy parent_id then [(''parent_id'', parent_id)] else [])))
                JNull st"
      using e by (intro add_comment_falsy falsy) simp_all
    have "\<not> truthy (fst (make_request e ''GET'' ''/agents/me'' JNull JNull
        (print [Browse_starting] st)))"
      using e by (intro falsy) simp_all
    then have "\<not> truthy (fst (get_profile e (print [Browse_starting] st)))"
      by (simp add: get_profile_falsy)
    then show "autonomous_browse e st =
        (Inr (), print [Profile_failed] (snd (get_profile e (print [Browse_starting] st))))"
      by (cases "get_profile e (print [Browse_starting] st)") (simp add: autonomous_browse_def)
  qed
  have first: ?A
    using mr_ok [of st "method" endpoint data prms] supported by simp
  have second: ?B
    using mr_bad [of st "method" endpoint data prms] supported by simp
  have falsy_both: ?C1 ?C2 ?C3
    by simp_all
  have "\<forall>e \<in> {ok, bad}. ?P e"
  proof (rule ballI)
    fix e :: env
    assume "e \<in> {ok, bad}"
    then have "e = ok \<or> e = bad" by simp
    then show "?P e" by (rule callers)
  qed
  with first second falsy_both show ?thesis
    by (intro conjI)
qed

theorem empty_body_is_falsy_success_witness:
  \<open>let ok = sample_env (always (document 204 [])); bad = sample_env unreachable;
       st = new_agent (JStr ''key'') True
   in truthy (api_key (moltbook st))
    \<and> status_code (document 204 []) = 204 \<and> body_text (document 204 []) = []
    \<and> server ok [] (authorized ok st ''POST'' ''/posts/p1/comments'') = Returns (document 204 [])
    \<and> server bad [] (authorized bad st ''POST'' ''/posts/p1/comments'') = Raises
    \<and> fst (make_request ok ''POST'' ''/posts/p1/comments''
              (JObj [(''content'', JStr ''Nice idea!'')]) JNull st) = JObj []
    \<and> fst (make_request bad ''POST'' ''/posts/p1/comments''
              (JObj [(''content'', JStr ''Nice idea!'')]) JNull st) = JNull
    \<and> add_comment ok (JStr ''p1'') ''Nice idea!'' JNull st =
        make_request ok ''POST'' ''/posts/p1/comments''
          (JObj [(''content'', JStr ''Nice idea!'')]) JNull st
    \<and> add_comment bad (JStr ''p1'') ''Nice idea!'' JNull st =
        make_request bad ''POST'' ''/posts/p1/comments''
          (JObj [(''content'', JStr ''Nice idea!'')]) JNull st
    \<and> console (snd (add_comment ok (JStr ''p1'') ''Nice idea!'' JNull st)) = []
    \<and> console (snd (add_comment bad (JStr ''p1'') ''Nice idea!'' JNull st)) = [Moltbook_api_error]
    \<and> fst (autonomous_browse ok st) = Inr () \<and> fst (autonomous_browse bad st) = Inr ()\<close>
proof -
  let ?ok = "sample_env (always (document 204 []))"
  let ?bad = "sample_env unreachable"
  let ?st = "new_agent (JStr ''key'') True"
  have key: "truthy (api_key (moltbook ?st))"
    by (simp add: new_agent_simps)
  have answer: "\<And>req. server ?ok (net_log ?st) req = Returns (document 204 [])"
    by (simp add: sample_env_def always_def)
  have status: "200 \<le> status_code (document 204 [])" "status_code (document 204 []) < 300"
    and body: "body_text (document 204 []) = []"
    by (simp_all add: document_def)
  have failure: "\<And>req. server ?bad (net_log ?st) req = Raises
        \<or> (\<exists>r. server ?bad (net_log ?st) req = Returns r
               \<and> 400 \<le> status_code r \<and> status_code r < 600)"
    by (simp add: sample_env_def unreachable_def)
  have post: "''POST'' = ''GET'' \<or> ''POST'' = ''POST'' \<or> ''POST'' = ''PATCH'' \<or> ''POST'' = ''DELETE''"
    by simp
  have p1: "fmt ?ok (JStr ''p1'') = ''p1''" "fmt ?bad (JStr ''p1'') = ''p1''"
    by (simp_all add: fmt_def)
  note inst = empty_body_is_falsy_success [OF key post answer status body failure,
      of "''/posts/p1/comments''" "JObj [(''content'', JStr ''Nice idea!'')]" JNull
        _ _ _ _ "JStr ''p1''" "''Nice idea!''" JNull]
  have quiet: "console (snd (add_comment ?ok (JStr ''p1'') ''Nice idea!'' JNull ?st)) = []"
    "console (snd (add_comment ?bad (JStr ''p1'') ''Nice idea!'' JNull ?st)) = [Moltbook_api_error]"
    by code_simp+
  have servers: "server ?ok [] (authorized ?ok ?st ''POST'' ''/posts/p1/comments'') = Returns (document 204 [])"
    "server ?bad [] (authorized ?bad ?st ''POST'' ''/posts/p1/comments'') = Raises"
    by (simp_all add: sample_env_def always_def unreachable_def)
  from inst key status body p1 quiet servers show ?thesis
    by (auto simp add: Let_def document_def)
qed

section \<open>An empty feed (C7)\<close>

text \<open>
  C7. When the profile fetch has succeeded and the feed fetch returns the empty list,
  or fails and returns \<^verbatim>\<open>None\<close>, \<^verbatim>\<open>autonomous_browse\<close> returns at line 269: the two
  fetches are the only network calls of the pass (no chat, upvote or comment request
  follows them), the conversation history is the one the pass found (no prompt was
  put to \<^verbatim>\<open>ask_ai\<close>), and no post header was printed.
\<close>

theorem empty_feed_aborts_pass:
  assumes profile: "get_profile e (print [Browse_starting] st) = (profile, st1)"
      "truthy profile" "py_get profile ''name'' (JStr ''Unknown'') = Inr agent_name"
    and feed: "get_feed e ''hot'' 10 (print [Agent_name (fmt e agent_name), Fetching_feed] st1)
                 = (feed, st2)"
      "feed = JArr [] \<or> feed = JNull"
  shows "autonomous_browse e st = (Inr (), print [No_posts] st2)
       \<and> net_log (print [No_posts] st2) =
           net_log st @ [(authorized e st ''GET'' ''/agents/me'')\<lparr>params := JNull\<rparr>,
                         (authorized e st ''GET'' ''/posts'')
                           \<lparr>params := JObj [(''sort'', JStr ''hot''), (''limit'', JInt 10)]\<rparr>]
       \<and> conversation_history (print [No_posts] st2) = conversation_history st"
proof -
  let ?st0 = "print [Browse_starting] st"
  let ?st1 = "print [Agent_name (fmt e agent_name), Fetching_feed] st1"
  have key: "truthy (api_key (moltbook st))"
  proof (rule ccontr)
    assume "\<not> truthy (api_key (moltbook st))"
    then have "get_profile e ?st0 = (JNull, print [Key_not_set] ?st0)"
      by (simp add: get_profile_def make_request_no_key)
    with profile show False by simp
  qed
  have st1: "st1 = snd (get_profile e ?st0)"
    using profile by simp
  have log1: "net_log st1 = net_log st @ [(authorized e st ''GET'' ''/agents/me'')\<lparr>params := JNull\<rparr>]"
    using key by (simp add: st1 get_profile_net_log make_request_GET exchange_net_log)
  have hist1: "conversation_history st1 = conversation_history st"
    unfolding st1
    by (cases "make_request e ''GET'' ''/agents/me'' JNull JNull ?st0")
       (use make_request_history [of e "''GET''" "''/agents/me''" JNull JNull ?st0]
        in \<open>simp add: get_profile_def\<close>)
  have mb1: "moltbook st1 = moltbook st"
    unfolding st1
    by (cases "make_request e ''GET'' ''/agents/me'' JNull JNull ?st0")
       (use make_request_moltbook [of e "''GET''" "''/agents/me''" JNull JNull ?st0]
        in \<open>simp add: get_profile_def\<close>)
  have auth1: "authorized e ?st1 = authorized e st"
    using mb1 by (simp add: authorized_def fun_eq_iff)
  have st2: "st2 = snd (get_feed e ''hot'' 10 ?st1)"
    using feed by simp
  have log2: "net_log st2 = net_log st1
      @ [(authorized e st ''GET'' ''/posts'')
           \<lparr>params := JObj [(''sort'', JStr ''hot''), (''limit'', JInt 10)]\<rparr>]"
    using key mb1 auth1
    by (simp add: st2 get_feed_def make_request_GET exchange_net_log)
  have hist2: "conversation_history st2 = conversation_history st"
    by (simp add: st2 get_feed_def make_request_history hist1)
  have "autonomous_browse e st = (Inr (), print [No_posts] st2)"
    using profile feed by (auto simp add: autonomous_browse_def)
  then show ?thesis
    by (simp add: log1 log2 hist2)
qed

theorem empty_feed_aborts_pass_witness:
  \<open>let e = sample_env empty_moltbook; st = new_agent (JStr ''key'') True;
       profile = JObj [(''name'', JStr ''molty'')]
   in truthy profile \<and> py_get profile ''name'' (JStr ''Unknown'') = Inr (JStr ''molty'')
    \<and> fst (get_profile e (print [Browse_starting] st)) = profile
    \<and> fst (get_feed e ''hot'' 10 (print [Agent_name ''molty'', Fetching_feed]
              (snd (get_profile e (print [Browse_starting] st))))) = JArr []
    \<and> fst (autonomous_browse e st) = Inr ()
    \<and> map url (net_log (snd (autonomous_browse e st))) =
         [''https://www.moltbook.com/api/v1/agents/me'', ''https://www.moltbook.com/api/v1/posts'']
    \<and> conversation_history (snd (autonomous_browse e st)) = []\<close>
proof -
  let ?e = "sample_env empty_moltbook"
  let ?st = "new_agent (JStr ''key'') True"
  let ?profile = "JObj [(''name'', JStr ''molty'')]"
  let ?st1 = "snd (get_profile ?e (print [Browse_starting] ?st))"
  let ?st2 = "snd (get_feed ?e ''hot'' 10 (print [Agent_name ''molty'', Fetching_feed] ?st1))"
  have p: "fst (get_profile ?e (print [Browse_starting] ?st)) = ?profile"
    by code_simp
  then have profile: "get_profile ?e (print [Browse_starting] ?st) = (?profile, ?st1)"
    by (simp add: prod_eq_iff)
  have name: "py_get ?profile ''name'' (JStr ''Unknown'') = Inr (JStr ''molty'')"
    by simp
  have f: "fst (get_feed ?e ''hot'' 10 (print [Agent_name ''molty'', Fetching_feed] ?st1)) = JArr []"
    by code_simp
  then have feed: "get_feed ?e ''hot'' 10
      (print [Agent_name (fmt ?e (JStr ''molty'')), Fetching_feed] ?st1) = (JArr [], ?st2)"
    by (simp add: prod_eq_iff fmt_def)
  have urls: "map url [(authorized ?e ?st ''GET'' ''/agents/me'')\<lparr>params := JNull\<rparr>,
                         (authorized ?e ?st ''GET'' ''/posts'')
                           \<lparr>params := JObj [(''sort'', JStr ''hot''), (''limit'', JInt 10)]\<rparr>] =
         [''https://www.moltbook.com/api/v1/agents/me'', ''https://www.moltbook.com/api/v1/posts'']"
    by (simp add: authorized_def new_agent_def)
  have start: "net_log ?st = []" "conversation_history ?st = []"
    by (simp_all add: new_agent_def)
  from empty_feed_aborts_pass [OF profile _ name feed] p f name urls start
  show ?thesis
    by (simp add: Let_def)
qed

section \<open>Interpreting the decision text (C3, C5, C6)\<close>

text \<open>The requests the Act step can make for a post.\<close>

lemma act_net_log:
  "net_log (act e post_id a st) =
     net_log st @
       (if truthy (api_key (moltbook st)) then
          (case a of
             Upvote \<Rightarrow>
               [(authorized e st ''POST'' (''/posts/'' @ fmt e post_id @ ''/upvote''))
                  \<lparr>json_body := JNull\<rparr>]
           | Comment comment_text \<Rightarrow>
               [(authorized e st ''POST'' (''/posts/'' @ fmt e post_id @ ''/comments''))
                  \<lparr>json_body := JObj [(''content'', JStr comment_text)]\<rparr>]
           | Skip \<Rightarrow> [])
        else [])"
proof (cases "truthy (api_key (moltbook st))")
  case True
  then show ?thesis
    by (cases a) (simp_all add: act_def upvote_post_net_log add_comment_net_log)
next
  case False
  then show ?thesis
    by (cases a)
       (simp_all add: act_def upvote_post_def add_comment_def make_request_no_key)
qed

lemma interpret_upvote:
  "str_contains (code_points ''UPVOTE'') (py_upper decision) \<Longrightarrow> interpret_decision decision = Upvote"
  by (simp add: interpret_decision_def)

lemma interpret_single_line:
  assumes "\<not> str_contains (code_points ''UPVOTE'') (py_upper decision)"
    and "str_contains (code_points ''COMMENT'') (py_upper decision)"
    and "newline \<notin> set (py_strip decision)"
  shows "interpret_decision decision = Comment ''Interesting post!''"
  using assms by (simp add: interpret_decision_def split_lines_single)

text \<open>A remainder of white space only, here a no-break space, is no remainder.\<close>

lemma blank_remainder_is_fallback:
  "interpret_decision (''COMMENT'' @ newline # [CHR 0xA0]) = Comment ''Interesting post!''"
  by code_simp

text \<open>
  C3, as the claim states it, fails on the text of the comment: the reply
  \<^verbatim>\<open>COMMENT\<close>, newline, \<^verbatim>\<open> Great point! \<close> gives the comment \<^verbatim>\<open>Great point!\<close>,
  which is not exactly the text after the first line, since line 314 strips it.
\<close>

theorem comment_text_is_stripped:
  "interpret_decision (''COMMENT'' @ newline # '' Great point! '') = Comment ''Great point!''
   \<and> interpret_decision (''COMMENT'' @ newline # '' Great point! '')
       \<noteq> Comment '' Great point! ''"
  by code_simp

text \<open>
  C3, amended. A text that contains \<^verbatim>\<open>UPVOTE\<close> in any mix of cases is an Upvote, and
  the upvote request is the only request made for the post (none, without a key): no
  comment call. A text without \<^verbatim>\<open>UPVOTE\<close> that is \<^verbatim>\<open>COMMENT\<close>, a newline and a rest
  that is not all whitespace is a Comment whose text is the rest with the whitespace
  around it stripped. The text \<^verbatim>\<open>SKIP\<close>, and any text that contains neither token, is
  a Skip, and no request is made for the post.
\<close>

theorem interpret_decision_cases:
  "(str_contains (code_points ''UPVOTE'') (py_upper upvote_text) \<longrightarrow>
      interpret_decision upvote_text = Upvote
      \<and> net_log (act e post_id (interpret_decision upvote_text) st) =
          net_log st @
            (if truthy (api_key (moltbook st))
             then [(authorized e st ''POST'' (''/posts/'' @ fmt e post_id @ ''/upvote''))
                     \<lparr>json_body := JNull\<rparr>]
             else []))
   \<and> (\<not> str_contains (code_points ''UPVOTE'') (py_upper (''COMMENT'' @ newline # rest))
        \<and> py_strip rest \<noteq> [] \<longrightarrow>
      interpret_decision (''COMMENT'' @ newline # rest) = Comment (py_strip rest))
   \<and> (skip_text = ''SKIP''
        \<or> \<not> str_contains (code_points ''UPVOTE'') (py_upper skip_text)
          \<and> \<not> str_contains (code_points ''COMMENT'') (py_upper skip_text) \<longrightarrow>
      interpret_decision skip_text = Skip
      \<and> net_log (act e post_id (interpret_decision skip_text) st) = net_log st)"
proof (intro conjI impI)
  assume up: "str_contains (code_points ''UPVOTE'') (py_upper upvote_text)"
  then show "interpret_decision upvote_text = Upvote"
    by (rule interpret_upvote)
  then show "net_log (act e post_id (interpret_decision upvote_text) st) =
          net_log st @
            (if truthy (api_key (moltbook st))
             then [(authorized e st ''POST'' (''/posts/'' @ fmt e post_id @ ''/upvote''))
                     \<lparr>json_body := JNull\<rparr>]
             else [])"
    by (simp add: act_net_log)
next
  let ?d = "''COMMENT'' @ newline # rest"
  assume a: "\<not> str_contains (code_points ''UPVOTE'') (py_upper ?d) \<and> py_strip rest \<noteq> []"
  have "prefix (code_points ''COMMENT'') (py_upper ''COMMENT'' @ py_upper (newline # rest))"
    unfolding upper_COMMENT by (rule prefixI) simp
  then have "prefix (code_points ''COMMENT'') (py_upper ?d)"
    unfolding upper_append .
  then have comment: "str_contains (code_points ''COMMENT'') (py_upper ?d)"
    by (rule str_contains_prefix)
  have stripped: "py_strip ?d = ''COMMENT'' @ newline # py_rstrip rest"
    using a by (intro strip_COMMENT_line) simp
  have "split_lines (''COMMENT'' @ newline # py_rstrip rest) =
      ''COMMENT'' # split_lines (py_rstrip rest)"
    using no_newline_in_COMMENT by (rule split_lines_first)
  then have lines: "split_lines (py_strip ?d) = ''COMMENT'' # split_lines (py_rstrip rest)"
    unfolding stripped .
  have more: "1 < length (split_lines (py_strip ?d))"
    unfolding lines using split_lines_not_Nil [of "py_rstrip rest"]
    by (cases "split_lines (py_rstrip rest)") simp_all
  have "py_strip (join_lines (drop 1 (split_lines (py_strip ?d)))) = py_strip rest"
    unfolding lines by (simp add: join_split_lines strip_rstrip)
  with a comment more show "interpret_decision ?d = Comment (py_strip rest)"
    unfolding interpret_decision_def Let_def by simp
next
  assume "skip_text = ''SKIP''
        \<or> \<not> str_contains (code_points ''UPVOTE'') (py_upper skip_text)
          \<and> \<not> str_contains (code_points ''COMMENT'') (py_upper skip_text)"
  moreover have "\<not> str_contains (code_points ''UPVOTE'') (py_upper ''SKIP'')"
    and "\<not> str_contains (code_points ''COMMENT'') (py_upper ''SKIP'')"
    by code_simp+
  ultimately have neither: "\<not> str_contains (code_points ''UPVOTE'') (py_upper skip_text)"
    "\<not> str_contains (code_points ''COMMENT'') (py_upper skip_text)"
    by auto
  then show skip: "interpret_decision skip_text = Skip"
    by (simp add: interpret_decision_def)
  show "net_log (act e post_id (interpret_decision skip_text) st) = net_log st"
    unfolding skip by (simp add: act_net_log)
qed

theorem interpret_decision_cases_witness:
  \<open>str_contains (code_points ''UPVOTE'') (py_upper ''Upvote!'')
   \<and> interpret_decision ''Upvote!'' = Upvote
   \<and> map url (net_log (act (sample_env (always (document 200 ''{}''))) (JStr ''p1'')
         (interpret_decision ''Upvote!'') (new_agent (JStr ''key'') True))) =
       [''https://www.moltbook.com/api/v1/posts/p1/upvote'']
   \<and> \<not> str_contains (code_points ''UPVOTE'') (py_upper (''COMMENT'' @ newline # ''Great point!''))
   \<and> py_strip ''Great point!'' \<noteq> []
   \<and> interpret_decision (''COMMENT'' @ newline # ''Great point!'') = Comment ''Great point!''
   \<and> interpret_decision ''SKIP'' = Skip
   \<and> net_log (act (sample_env (always (document 200 ''{}''))) (JStr ''p1'')
         (interpret_decision ''SKIP'') (new_agent (JStr ''key'') True)) = []\<close>
proof -
  let ?e = "sample_env (always (document 200 ''{}''))"
  let ?st = "new_agent (JStr ''key'') True"
  have up: "str_contains (code_points ''UPVOTE'') (py_upper ''Upvote!'')"
    by code_simp
  have no_up: "\<not> str_contains (code_points ''UPVOTE'') (py_upper (''COMMENT'' @ newline # ''Great point!''))"
    by code_simp
  have rest: "py_strip ''Great point!'' = ''Great point!''"
    by code_simp
  from interpret_decision_cases [of "''Upvote!''" ?e "JStr ''p1''" ?st "''Great point!''" "''SKIP''"]
    up no_up rest
  show ?thesis
    by (auto simp add: authorized_def fmt_def new_agent_simps)
qed

text \<open>
  C5. A text that contains both \<^verbatim>\<open>UPVOTE\<close> and \<^verbatim>\<open>COMMENT\<close>, in any mix of cases, is
  an Upvote: line 307 is tested first. The upvote request is the only request made for
  the post (none, without a key), so no comment call is made.
\<close>

theorem upvote_wins_over_comment:
  assumes "str_contains (code_points ''UPVOTE'') (py_upper decision)"
    and "str_contains (code_points ''COMMENT'') (py_upper decision)"
  shows "interpret_decision decision = Upvote
       \<and> act e post_id (interpret_decision decision) st =
           snd (upvote_post e post_id (print [Decision_upvoting] st))
       \<and> net_log (act e post_id (interpret_decision decision) st) =
           net_log st @
             (if truthy (api_key (moltbook st))
              then [(authorized e st ''POST'' (''/posts/'' @ fmt e post_id @ ''/upvote''))
                      \<lparr>json_body := JNull\<rparr>]
              else [])"
proof -
  have up: "interpret_decision decision = Upvote"
    using assms(1) by (rule interpret_upvote)
  show ?thesis
    unfolding up by (simp add: act_net_log) (simp add: act_def)
qed

theorem upvote_wins_over_comment_witness:
  \<open>str_contains (code_points ''UPVOTE'') (py_upper (''COMMENT'' @ newline # ''I would upvote this.''))
   \<and> str_contains (code_points ''COMMENT'') (py_upper (''COMMENT'' @ newline # ''I would upvote this.''))
   \<and> interpret_decision (''COMMENT'' @ newline # ''I would upvote this.'') = Upvote
   \<and> map (\<lambda>r. (url r, json_body r))
        (net_log (act (sample_env (always (document 200 ''{}''))) (JStr ''p1'')
           (interpret_decision (''COMMENT'' @ newline # ''I would upvote this.''))
           (new_agent (JStr ''key'') True))) =
       [(''https://www.moltbook.com/api/v1/posts/p1/upvote'', JNull)]\<close>
proof -
  let ?e = "sample_env (always (document 200 ''{}''))"
  let ?st = "new_agent (JStr ''key'') True"
  let ?d = "''COMMENT'' @ newline # ''I would upvote this.''"
  have up: "str_contains (code_points ''UPVOTE'') (py_upper ?d)"
    by code_simp
  have com: "str_contains (code_points ''COMMENT'') (py_upper ?d)"
    by code_simp
  from upvote_wins_over_comment [OF up com, of ?e "JStr ''p1''" ?st] up com
  show ?thesis
    by (auto simp add: authorized_def fmt_def new_agent_simps)
qed

text \<open>
  C6. A text that takes the Comment branch (it contains \<^verbatim>\<open>COMMENT\<close> and not \<^verbatim>\<open>UPVOTE\<close>)
  and has no line after its first one, be it that the text has no newline at all or
  that nothing but whitespace follows the first line, is a Comment with the fixed text
  \<^verbatim>\<open>Interesting post!\<close>, and that text is the content of the comment request.
\<close>

theorem comment_fallback:
  assumes "\<not> str_contains (code_points ''UPVOTE'') (py_upper decision)"
    and "str_contains (code_points ''COMMENT'') (py_upper decision)"
    and "newline \<notin> set decision \<or> newline \<notin> set (py_strip decision)"
  shows "interpret_decision decision = Comment ''Interesting post!''
       \<and> net_log (act e post_id (interpret_decision decision) st) =
           net_log st @
             (if truthy (api_key (moltbook st))
              then [(authorized e st ''POST'' (''/posts/'' @ fmt e post_id @ ''/comments''))
                      \<lparr>json_body := JObj [(''content'', JStr ''Interesting post!'')]\<rparr>]
              else [])"
proof -
  have "newline \<notin> set (py_strip decision)"
    using assms(3) set_strip [of decision] by blast
  with assms(1,2) have c: "interpret_decision decision = Comment ''Interesting post!''"
    by (rule interpret_single_line)
  show ?thesis
    unfolding c by (simp add: act_net_log)
qed

theorem comment_fallback_witness:
  \<open>\<not> str_contains (code_points ''UPVOTE'') (py_upper ''COMMENT'')
   \<and> str_contains (code_points ''COMMENT'') (py_upper ''COMMENT'')
   \<and> newline \<notin> set ''COMMENT''
   \<and> interpret_decision ''COMMENT'' = Comment ''Interesting post!''
   \<and> map (\<lambda>r. (url r, json_body r))
        (net_log (act (sample_env (always (document 200 ''{}''))) (JStr ''p1'')
           (interpret_decision ''COMMENT'') (new_agent (JStr ''key'') True))) =
       [(''https://www.moltbook.com/api/v1/posts/p1/comments'',
         JObj [(''content'', JStr ''Interesting post!'')])]\<close>
proof -
  let ?e = "sample_env (always (document 200 ''{}''))"
  let ?st = "new_agent (JStr ''key'') True"
  have no_up: "\<not> str_contains (code_points ''UPVOTE'') (py_upper ''COMMENT'')"
    by code_simp
  have com: "str_contains (code_points ''COMMENT'') (py_upper ''COMMENT'')"
    by code_simp
  have one: "newline \<notin> set ''COMMENT'' \<or> newline \<notin> set (py_strip ''COMMENT'')"
    using no_newline_in_COMMENT by simp
  from comment_fallback [OF no_up com one, of ?e "JStr ''p1''" ?st]
    no_up com no_newline_in_COMMENT
  show ?thesis
    by (auto simp add: authorized_def fmt_def new_agent_simps)
qed

section \<open>Streaming aggregation (C1) and transport failures (C8)\<close>

text \<open>
  What the loop does on the lines it is written for: when every line before the
  sentinel is readable, the loop stops at the sentinel, by \<^verbatim>\<open>break\<close>, with the
  concatenation of the content deltas of the frames before it; whatever follows the
  sentinel is not read.
\<close>

lemma read_stream_readable:
  assumes "list_all (readable loads) ls" and "is_sentinel s"
  shows "fst (read_stream loads (ls @ s # rest) full out) = Broke_off
       \<and> fst (snd (read_stream loads (ls @ s # rest) full out)) =
           full @ concat (map (frame_text loads) ls)"
  using assms
proof (induction ls arbitrary: full out)
  case Nil
  then show ?case
    by (cases s) (auto simp add: is_sentinel_def)
next
  case (Cons l ls)
  then have l: "readable loads l" and ls: "list_all (readable loads) ls"
    by simp_all
  note IH = Cons.IH [OF ls Cons.prems(2)]
  from l obtain t where t: "l = Decodes t"
    by (cases l) (simp_all add: readable_def)
  show ?case
  proof (cases "prefix ''data: '' t")
    case False
    then show ?thesis
      using IH [of full out] by (simp add: t frame_text_def)
  next
    case True
    with l have not_done: "py_strip (drop 6 t) \<noteq> ''[DONE]''"
      by (simp add: t readable_def is_sentinel_def)
    from True have nonempty: "t \<noteq> []"
      by auto
    show ?thesis
    proof (cases "loads (drop 6 t)")
      case None
      then show ?thesis
        using IH [of full out] True not_done nonempty by (simp add: t frame_text_def)
    next
      case (Some data)
      with l True obtain c where c: "frame_content data = Inr c"
        by (cases "frame_content data") (simp_all add: t readable_def)
      show ?thesis
      proof (cases c)
        case None
        then show ?thesis
          using IH [of full out] True not_done nonempty Some c
          by (simp add: t frame_text_def)
      next
        case (Some content)
        then show ?thesis
          using IH [of "full @ content" "out @ [Echo content]"] True not_done nonempty
            \<open>loads (drop 6 t) = Some data\<close> c
          by (simp add: t frame_text_def)
      qed
    qed
  qed
qed

lemma chat_aggregates_readable_stream:
  assumes "server e (net_log st) (chat_request (ai st) messages True) = Returns response"
    and "\<not> raises_for_status response"
    and "body_lines response = ls @ s # rest"
    and "list_all (readable (json_loads e)) ls" and "is_sentinel s"
  shows "fst (chat e messages True st) = Inr (JStr (concat (map (frame_text (json_loads e)) ls)))"
proof -
  obtain full out where r: "read_stream (json_loads e) (ls @ s # rest) [] [] = (Broke_off, full, out)"
    and full: "full = concat (map (frame_text (json_loads e)) ls)"
    using read_stream_readable [OF assms(4,5), of rest "[]" "[]"]
    by (cases "read_stream (json_loads e) (ls @ s # rest) [] []") auto
  show ?thesis
    using assms(1,2,3) r full by (simp add: chat_def Let_def)
qed

text \<open>
  C1. The claim holds of every stream of readable lines (the two lemmas above), and
  fails where the code fails: a frame whose payload is JSON of a shape the code does
  not expect is not skipped. Here the payload \<^verbatim>\<open>null\<close> arrives between two
  well-formed frames and before the sentinel; \<^verbatim>\<open>'choices' in data\<close> raises
  \<^verbatim>\<open>TypeError\<close>, which neither line 76 nor line 84 catches, and \<^verbatim>\<open>chat\<close> returns
  nothing, where the claim has it return \<^verbatim>\<open>Hello\<close>.
\<close>

theorem chat_raises_on_unexpected_frame:
  \<open>fst (chat (sample_env (always (streamed 200
          [''data: {"choices":[{"delta":{"content":"Hel"}}]}'',
           ''data: null'',
           ''data: {"choices":[{"delta":{"content":"lo"}}]}'',
           ''data: [DONE]''])))
        [message ''user'' (JStr ''hi'')] True (new_agent (JStr ''key'') True))
   = Inl TypeError\<close>
  by code_simp

text \<open>The stream of the specification's example, with a payload that is not JSON, an
  empty line and a comment line in it.\<close>

lemma chat_hello_world:
  \<open>fst (chat (sample_env (always (streamed 200
          [''data: {"choices":[{"delta":{"content":"Hel"}}]}'',
           ''data: {oops'', '''', '': ping'',
           ''data: {"choices":[{"delta":{"content":"lo"}}]}'',
           ''data: {"choices":[{"delta":{"content":" world"}}]}'',
           ''data: [DONE]''])))
        [message ''user'' (JStr ''hi'')] True (new_agent (JStr ''key'') True))
   = Inr (JStr ''Hello world'')\<close>
  by code_simp




text \<open>
  A connection that breaks while the stream is read ends in the same handler, when
  the lines read before the break are readable ones: \<^verbatim>\<open>iter_lines\<close> raises its
  \<^verbatim>\<open>RequestException\<close> once they are consumed.
\<close>

lemma read_stream_runs_out:
  "list_all (readable loads) ls \<Longrightarrow> fst (read_stream loads ls full out) = Ran_out"
proof (induction ls arbitrary: full out)
  case Nil
  show ?case by simp
next
  case (Cons l ls)
  then have l: "readable loads l" and IH: "\<And>full out. fst (read_stream loads ls full out) = Ran_out"
    by simp_all
  from l obtain t where t: "l = Decodes t"
    by (cases l) (simp_all add: readable_def)
  from l have open_stream: "prefix ''data: '' t \<Longrightarrow> py_strip (drop 6 t) \<noteq> ''[DONE]''"
    by (simp add: t readable_def is_sentinel_def)
  from l have no_error: "prefix ''data: '' t \<Longrightarrow> loads (drop 6 t) = Some data \<Longrightarrow>
      \<exists>c. frame_content data = Inr c" for data
    by (cases "frame_content data") (simp_all add: t readable_def)
  show ?case
  proof (cases "prefix ''data: '' t")
    case False
    then show ?thesis by (simp add: t IH)
  next
    case True
    show ?thesis
    proof (cases "loads (drop 6 t)")
      case None
      then show ?thesis using True open_stream by (simp add: t IH)
    next
      case (Some data)
      then obtain c where "frame_content data = Inr c"
        using no_error [OF True] by blast
      then show ?thesis
        using True open_stream Some by (cases c) (simp_all add: t IH)
    qed
  qed
qed

lemma chat_broken_stream:
  assumes "server e (net_log st) (chat_request (ai st) messages True) = Returns response"
    and "interrupted response"
    and "list_all (readable (json_loads e)) (body_lines response)"
  shows "fst (chat e messages True st) = Inr (JStr [])"
proof -
  have "fst (read_stream (json_loads e) (body_lines response) [] []) = Ran_out"
    using assms(3) by (rule read_stream_runs_out)
  then show ?thesis
    using assms(1,2)
    by (cases "read_stream (json_loads e) (body_lines response) [] []")
       (auto simp add: chat_def Let_def)
qed


end
